theory Spec2Isabelle
  imports Complex_Main
begin

section \<open>Numbers and exceptions\<close>

text \<open>
  The module computes with IEEE doubles and pairs of doubles.  They are embedded as the
  exact fields \<^typ>\<open>real\<close> and \<^typ>\<open>complex\<close>: rounding, overflow and NaN are outside
  the model.  The one place where the exact fields and the program part ways inside the
  code under study is a division by zero, which is therefore modelled explicitly further
  below (\<open>truediv\<close>, \<open>np_divide\<close>).

  An exception is a value: its Python class together with what its message holds.
\<close>

datatype message =
    Msg string
  | MsgRoots string "complex list"  \<comment> \<open>a text followed by \<open>str(roots)\<close>\<close>

datatype error =
    ValueError message
  | TypeError message
  | IndexError message
  | UnboundLocalError message
  | ZeroDivisionError message

text \<open>
  The specification names two kinds of failure.  \<open>InvalidArgument\<close> is raised in the
  code as \<open>ValueError\<close> (shape, count, non-conjugate roots) or \<open>TypeError\<close> (index arity),
  \<open>OutOfRange\<close> as \<open>IndexError\<close>.
\<close>

fun InvalidArgument :: "error \<Rightarrow> bool" where
  "InvalidArgument (ValueError m) = True"
| "InvalidArgument (TypeError m) = True"
| "InvalidArgument e = False"

fun OutOfRange :: "error \<Rightarrow> bool" where
  "OutOfRange (IndexError m) = True"
| "OutOfRange e = False"

section \<open>Conversion of conjugate root pairs: \<open>transformRootsToPoly2\<close>\<close>

text \<open>\<open>sys.float_info.epsilon\<close> of an IEEE double.\<close>

definition float_info_epsilon :: real where
  "float_info_epsilon = 1 / 2 ^ 52"

definition eps :: real where
  "eps = 100 * float_info_epsilon"

text \<open>The slice \<open>xs[0:len(xs):2]\<close>; \<open>xs[1:len(xs):2]\<close> is the same slice of \<open>drop 1 xs\<close>.\<close>

fun slice2 :: "'a list \<Rightarrow> 'a list" where
  "slice2 [] = []"
| "slice2 [x] = [x]"
| "slice2 (x # y # xs) = x # slice2 xs"

text \<open>
  The boolean vector \<open>isConj\<close> of the source, one entry per pair.  In the message of the
  second exception the line break of the source is written as a space.
\<close>

definition isConj :: "complex list \<Rightarrow> complex list \<Rightarrow> bool list" where
  "isConj r1 r2 =
     map (\<lambda>(a, b). cmod (cnj a - b) < eps * max 1 \<bar>Re a\<bar>) (zip r1 r2)"

definition transformRootsToPoly2 :: "complex list \<Rightarrow> error + (real \<times> real) list" where
  "transformRootsToPoly2 roots =
     (let nroots = length roots in
      if nroots mod 2 \<noteq> 0 then Inl (ValueError (Msg ''Number of roots must be even.''))
      else
        let r1 = slice2 roots;
            r2 = slice2 (drop 1 roots)
        in if \<not> list_all id (isConj r1 r2)
           then Inl (ValueError
                  (MsgRoots ''Vector of roots are not all conjugate complex numbers: roots = '' roots))
           else Inr (map (\<lambda>(a, b). (Re (a * b), Re (- (a + b)))) (zip r1 r2)))"

text \<open>
  The conjugate-validity test of the specification, pair by pair:
  \<open>|conj(r1) - r2| < \<epsilon> max(1, |r1.real|)\<close> for the pairs \<open>(roots[2j], roots[2j+1])\<close>.
\<close>

definition pair_valid :: "complex \<Rightarrow> complex \<Rightarrow> bool" where
  "pair_valid r1 r2 = (cmod (cnj r1 - r2) < eps * max 1 \<bar>Re r1\<bar>)"

definition conjugate_valid :: "complex list \<Rightarrow> bool" where
  "conjugate_valid roots =
     list_all (\<lambda>j. pair_valid (roots ! (2 * j)) (roots ! (2 * j + 1)))
       [0 ..< length roots div 2]"

text \<open>
  Pairs that are conjugate exactly: \<open>roots[2j+1] = conj(roots[2j])\<close>.
\<close>

definition exact_pairs :: "complex list \<Rightarrow> bool" where
  "exact_pairs roots =
     (even (length roots)
      \<and> list_all (\<lambda>j. roots ! (2 * j + 1) = cnj (roots ! (2 * j))) [0 ..< length roots div 2])"

section \<open>The SISO entity \<open>ZerosAndPolesSISO\<close>\<close>

text \<open>
  The attributes of the class.  \<open>n2\<close> and \<open>d2\<close> are the rows \<open>(a, b)\<close> of the two-column
  matrices: the factor \<open>a + b s + s\<^sup>2\<close>.
\<close>

record ZerosAndPolesSISO =
  k :: real
  n1 :: "real list"
  n2 :: "(real \<times> real) list"
  d1 :: "real list"
  d2 :: "(real \<times> real) list"
  z :: "complex list"
  p :: "complex list"

text \<open>
  What \<open>numpy.array(x, dtype=complex, ndmin=1)\<close> accepts for the zeros and the poles: one
  number, promoted to a vector of length one, or a sequence of numbers.
\<close>

datatype array_like = Scalar complex | Sequence "complex list"

fun array_ndmin1 :: "array_like \<Rightarrow> complex list" where
  "array_ndmin1 (Scalar c) = [c]"
| "array_ndmin1 (Sequence cs) = cs"

text \<open>
  The branch \<open>len(zpk) == 3\<close> of \<open>__init__\<close>, form (1): the tuple \<open>(k, z, p)\<close>.  The
  exceptions of \<open>transformRootsToPoly2\<close> pass through, the zeros first.
\<close>

definition ZerosAndPolesSISO_init3 ::
    "real \<Rightarrow> array_like \<Rightarrow> array_like \<Rightarrow> error + ZerosAndPolesSISO" where
  "ZerosAndPolesSISO_init3 gain zeros poles =
     (let zv = array_ndmin1 zeros;
          pv = array_ndmin1 poles;
          n1v = map (\<lambda>c. - Re c) (filter (\<lambda>c. Im c = 0) zv);
          d1v = map (\<lambda>c. - Re c) (filter (\<lambda>c. Im c = 0) pv)
      in case transformRootsToPoly2 (filter (\<lambda>c. Im c \<noteq> 0) zv) of
           Inl e \<Rightarrow> Inl e
         | Inr n2v \<Rightarrow>
             (case transformRootsToPoly2 (filter (\<lambda>c. Im c \<noteq> 0) pv) of
                Inl e \<Rightarrow> Inl e
              | Inr d2v \<Rightarrow>
                  Inr \<lparr>k = gain, n1 = n1v, n2 = n2v, d1 = d1v, d2 = d2v, z = zv, p = pv\<rparr>))"

definition ZerosAndPolesSISO_set_k :: "ZerosAndPolesSISO \<Rightarrow> real \<Rightarrow> ZerosAndPolesSISO" where
  "ZerosAndPolesSISO_set_k self k_new = self\<lparr>k := k_new\<rparr>"

subsection \<open>Scalar values and their division\<close>

text \<open>
  On the scalar path of \<open>evaluate_at_s\<close> the numerator and the denominator start as
  Python \<open>complex\<close> values.  The entries of \<open>n1\<close> and \<open>d1\<close> are \<open>numpy.float64\<close>, a
  subclass of \<open>float\<close>: \<open>ss + zj\<close> is computed by \<open>complex.__add__\<close> and stays a Python
  \<open>complex\<close>.  For a second-order factor \<open>bj + ss\<close> is computed by \<open>numpy.float64.__add__\<close>
  and is a \<open>numpy.complex128\<close>, a subclass of \<open>complex\<close> whose reflected operators take
  precedence: the product is a \<open>numpy.complex128\<close> from then on.  The class matters at one
  place: Python's complex division raises \<open>ZeroDivisionError\<close> on a zero divisor, numpy's
  returns \<open>inf\<close> or \<open>nan\<close> (with a warning).
\<close>

datatype pyval = PyFloat real | PyComplex complex | NpComplex128 complex

fun cval :: "pyval \<Rightarrow> complex" where
  "cval (PyFloat r) = complex_of_real r"
| "cval (PyComplex c) = c"
| "cval (NpComplex128 c) = c"

fun is_numpy :: "pyval \<Rightarrow> bool" where
  "is_numpy (NpComplex128 c) = True"
| "is_numpy v = False"

text \<open>\<open>num *= c\<close> for a Python complex \<open>c\<close>, and for a \<open>numpy.complex128\<close> \<open>c\<close>.\<close>

fun imul_py :: "pyval \<Rightarrow> complex \<Rightarrow> pyval" where
  "imul_py (NpComplex128 a) c = NpComplex128 (a * c)"
| "imul_py v c = PyComplex (cval v * c)"

definition imul_np :: "pyval \<Rightarrow> complex \<Rightarrow> pyval" where
  "imul_np v c = NpComplex128 (cval v * c)"

text \<open>A value the evaluation returns: a finite complex number, or \<open>inf\<close>/\<open>nan\<close>.\<close>

datatype outval = Finite complex | NonFinite

definition truediv :: "pyval \<Rightarrow> pyval \<Rightarrow> error + outval" where
  "truediv a b =
     (if cval b = 0
      then (if is_numpy a \<or> is_numpy b then Inr NonFinite
            else Inl (ZeroDivisionError (Msg ''complex division by zero'')))
      else Inr (Finite (cval a / cval b)))"

text \<open>Elementwise division of numpy arrays: never raises.\<close>

definition np_divide :: "complex \<Rightarrow> complex \<Rightarrow> outval" where
  "np_divide a b = (if b = 0 then NonFinite else Finite (a / b))"

subsection \<open>\<open>evaluate_at_s\<close>\<close>

text \<open>
  The argument \<open>s\<close> is a number (\<open>isinstance(s, (int, float, complex))\<close>) or array-like;
  the result has the shape of the argument.
\<close>

datatype s_arg = SScalar complex | SArray "complex list"

datatype y_val = YScalar outval | YArray "outval list"

text \<open>The scalar path: the four loops, the floor, the division.\<close>

definition evaluate_scalar :: "ZerosAndPolesSISO \<Rightarrow> complex \<Rightarrow> real \<Rightarrow> error + outval" where
  "evaluate_scalar self ss den_min =
     (let num0 = PyComplex (complex_of_real (k self));
          den0 = PyComplex 1;
          num1 = foldl (\<lambda>num zj. imul_py num (ss + complex_of_real zj)) num0 (n1 self);
          num = foldl (\<lambda>num (aj, bj).
                  imul_np num (complex_of_real aj + (complex_of_real bj + ss) * ss)) num1 (n2 self);
          den1 = foldl (\<lambda>den pj. imul_py den (ss + complex_of_real pj)) den0 (d1 self);
          den = foldl (\<lambda>den (aj, bj).
                  imul_np den (complex_of_real aj + (complex_of_real bj + ss) * ss)) den1 (d2 self);
          abs_den = cmod (cval den);
          den2 = (if abs_den \<ge> den_min then den else PyFloat den_min)
      in truediv num den2)"

text \<open>
  The array path: every loop step multiplies the whole vector; \<open>numpy.select\<close> picks the
  divisor point by point.
\<close>

definition evaluate_array :: "ZerosAndPolesSISO \<Rightarrow> complex list \<Rightarrow> real \<Rightarrow> outval list" where
  "evaluate_array self ss den_min =
     (let num0 = map (\<lambda>s. complex_of_real (k self)) ss;
          den0 = map (\<lambda>s. 1) ss;
          num1 = foldl (\<lambda>num zj. map2 (*) num (map (\<lambda>s. s + complex_of_real zj) ss)) num0 (n1 self);
          num = foldl (\<lambda>num (aj, bj). map2 (*) num
                  (map (\<lambda>s. complex_of_real aj + (complex_of_real bj + s) * s) ss)) num1 (n2 self);
          den1 = foldl (\<lambda>den pj. map2 (*) den (map (\<lambda>s. s + complex_of_real pj) ss)) den0 (d1 self);
          den = foldl (\<lambda>den (aj, bj). map2 (*) den
                  (map (\<lambda>s. complex_of_real aj + (complex_of_real bj + s) * s) ss)) den1 (d2 self);
          den2 = map (\<lambda>d. if cmod d \<ge> den_min then d else complex_of_real den_min) den
      in map2 np_divide num den2)"

definition ZerosAndPolesSISO_evaluate_at_s ::
    "ZerosAndPolesSISO \<Rightarrow> s_arg \<Rightarrow> real \<Rightarrow> error + y_val" where
  "ZerosAndPolesSISO_evaluate_at_s self s den_min =
     (case s of
        SScalar c \<Rightarrow>
          (case evaluate_scalar self c den_min of Inl e \<Rightarrow> Inl e | Inr y \<Rightarrow> Inr (YScalar y))
      | SArray cs \<Rightarrow> Inr (YArray (evaluate_array self cs den_min)))"

text \<open>
  The transfer function in closed form, as the docstring and the specification write it:
  \<open>k \<Prod>(s + n1\<^sub>i) \<Prod>(a\<^sub>j + (b\<^sub>j + s) s)\<close> over \<open>\<Prod>(s + d1\<^sub>i) \<Prod>(a\<^sub>j + (b\<^sub>j + s) s)\<close>,
  and the reference \<open>k \<Prod>(s - z\<^sub>i) / \<Prod>(s - p\<^sub>i)\<close>.
\<close>

definition factors1 :: "real list \<Rightarrow> complex \<Rightarrow> complex" where
  "factors1 cs s = prod_list (map (\<lambda>c. s + complex_of_real c) cs)"

definition factors2 :: "(real \<times> real) list \<Rightarrow> complex \<Rightarrow> complex" where
  "factors2 rows s =
     prod_list (map (\<lambda>(a, b). complex_of_real a + (complex_of_real b + s) * s) rows)"

definition numerator :: "ZerosAndPolesSISO \<Rightarrow> complex \<Rightarrow> complex" where
  "numerator self s = complex_of_real (k self) * factors1 (n1 self) s * factors2 (n2 self) s"

definition denominator :: "ZerosAndPolesSISO \<Rightarrow> complex \<Rightarrow> complex" where
  "denominator self s = factors1 (d1 self) s * factors2 (d2 self) s"

text \<open>
  The numerator and the denominator as the scalar path holds them when the loops are
  done: a \<open>numpy.complex128\<close> as soon as a second-order factor was multiplied in.
\<close>

definition py_numerator :: "ZerosAndPolesSISO \<Rightarrow> complex \<Rightarrow> pyval" where
  "py_numerator self s =
     (if n2 self = [] then PyComplex (numerator self s) else NpComplex128 (numerator self s))"

definition py_denominator :: "ZerosAndPolesSISO \<Rightarrow> complex \<Rightarrow> pyval" where
  "py_denominator self s =
     (if d2 self = [] then PyComplex (denominator self s) else NpComplex128 (denominator self s))"

definition root_product :: "complex list \<Rightarrow> complex \<Rightarrow> complex" where
  "root_product rs s = prod_list (map (\<lambda>r. s - r) rs)"

definition reference_value :: "real \<Rightarrow> complex list \<Rightarrow> complex list \<Rightarrow> complex \<Rightarrow> complex" where
  "reference_value gain zs ps s = complex_of_real gain * root_product zs s / root_product ps s"

definition within_rel :: "real \<Rightarrow> complex \<Rightarrow> complex \<Rightarrow> bool" where
  "within_rel tol y ref = (cmod (y - ref) \<le> tol * cmod ref)"

section \<open>The MIMO matrix \<open>ZerosAndPoles\<close>\<close>

record ZerosAndPoles =
  zpk :: "ZerosAndPolesSISO list list"
  nu :: nat
  ny :: nat

text \<open>
  What the constructor establishes for a rectangular argument: \<open>ny\<close> rows of \<open>nu\<close> cells.
\<close>

definition rectangular :: "ZerosAndPoles \<Rightarrow> bool" where
  "rectangular self =
     (ny self = length (zpk self) \<and> list_all (\<lambda>row. length row = nu self) (zpk self))"

text \<open>Python's \<open>xs[i]\<close>: a negative index counts from the end, anything else out of range raises.\<close>

definition py_index :: "'a list \<Rightarrow> int \<Rightarrow> error + 'a" where
  "py_index xs i =
     (let n = int (length xs);
          j = (if i < 0 then n + i else i)
      in if 0 \<le> j \<and> j < n then Inr (xs ! nat j)
         else Inl (IndexError (Msg ''list index out of range'')))"

text \<open>Sequencing of fallible steps: the first exception ends the computation.\<close>

definition bind :: "error + 'a \<Rightarrow> ('a \<Rightarrow> error + 'b) \<Rightarrow> error + 'b" where
  "bind m f = (case m of Inl e \<Rightarrow> Inl e | Inr v \<Rightarrow> f v)"

text \<open>A list comprehension whose element expression may raise.\<close>

fun comprehension :: "('a \<Rightarrow> error + 'b) \<Rightarrow> 'a list \<Rightarrow> error + 'b list" where
  "comprehension f [] = Inr []"
| "comprehension f (x # xs) =
     bind (f x) (\<lambda>y. bind (comprehension f xs) (\<lambda>ys. Inr (y # ys)))"

definition ZerosAndPoles_getitem :: "ZerosAndPoles \<Rightarrow> int list \<Rightarrow> error + ZerosAndPolesSISO" where
  "ZerosAndPoles_getitem self key =
     (if length key \<noteq> 2 then Inl (TypeError (Msg ''Item must have two elements, e.g. [1,2]''))
      else if key ! 0 < 0 \<or> key ! 0 \<ge> int (ny self)
        then Inl (IndexError (Msg ''Index is not in the allowed range''))
      else if key ! 1 < 0 \<or> key ! 1 \<ge> int (nu self)
        then Inl (IndexError (Msg ''Index is not in the allowed range''))
      else bind (py_index (zpk self) (key ! 0)) (\<lambda>row. py_index row (key ! 1)))"

text \<open>\<open>range(0, n)\<close>, and the default of an omitted index selection.\<close>

definition range0 :: "nat \<Rightarrow> int list" where
  "range0 n = map int [0 ..< n]"

definition selection :: "int list option \<Rightarrow> nat \<Rightarrow> int list" where
  "selection indices n = (case indices of None \<Rightarrow> range0 n | Some xs \<Rightarrow> xs)"

text \<open>\<open>self.zpk[i][j]\<close>.\<close>

definition cell :: "ZerosAndPoles \<Rightarrow> int \<Rightarrow> int \<Rightarrow> error + ZerosAndPolesSISO" where
  "cell self i j = bind (py_index (zpk self) i) (\<lambda>row. py_index row j)"

definition ZerosAndPoles_evaluate_at_s ::
    "ZerosAndPoles \<Rightarrow> s_arg \<Rightarrow> real \<Rightarrow> int list option \<Rightarrow> int list option
      \<Rightarrow> error + y_val list list" where
  "ZerosAndPoles_evaluate_at_s self s den_min u_indices y_indices =
     (let ui = selection u_indices (nu self);
          yi = selection y_indices (ny self)
      in comprehension (\<lambda>j.
           comprehension (\<lambda>i.
             bind (cell self i j) (\<lambda>c. ZerosAndPolesSISO_evaluate_at_s c s den_min)) yi) ui)"

subsection \<open>Frequency response of the matrix\<close>

text \<open>
  \<open>math.log10\<close> raises on a non-positive argument.  \<open>numpy.linspace\<close> and \<open>numpy.logspace\<close>
  with \<open>num \<ge> 1\<close> samples, the end point included.
\<close>

definition math_log10 :: "real \<Rightarrow> error + real" where
  "math_log10 x = (if x \<le> 0 then Inl (ValueError (Msg ''math domain error'')) else Inr (log 10 x))"

definition linspace :: "real \<Rightarrow> real \<Rightarrow> nat \<Rightarrow> real list" where
  "linspace start stop num =
     (if num = 1 then [start]
      else map (\<lambda>i. start + real i * ((stop - start) / real (num - 1))) [0 ..< num])"

definition logspace :: "real \<Rightarrow> real \<Rightarrow> nat \<Rightarrow> real list" where
  "logspace start stop num = map (\<lambda>x. 10 powr x) (linspace start stop num)"

text \<open>
  The nested loop over the selected cells that widens \<open>(f_min, f_max)\<close>.  The module
  \<open>Misc\<close> is not part of the sources: \<open>frequencyRange\<close> (called with the zeros, the poles
  and the optional range) and \<open>from_Hz\<close> are parameters.
\<close>

fun widen_row ::
    "(complex list \<Rightarrow> complex list \<Rightarrow> (real \<times> real) option \<Rightarrow> real \<times> real)
      \<Rightarrow> ZerosAndPoles \<Rightarrow> int \<Rightarrow> int list \<Rightarrow> real \<times> real \<Rightarrow> error + real \<times> real" where
  "widen_row frequencyRange self i [] r = Inr r"
| "widen_row frequencyRange self i (j # js) r =
     bind (cell self i j) (\<lambda>c.
       let r_ij = frequencyRange (z c) (p c) None
       in widen_row frequencyRange self i js (min (fst r) (fst r_ij), max (snd r) (snd r_ij)))"

fun widen ::
    "(complex list \<Rightarrow> complex list \<Rightarrow> (real \<times> real) option \<Rightarrow> real \<times> real)
      \<Rightarrow> ZerosAndPoles \<Rightarrow> int list \<Rightarrow> int list \<Rightarrow> real \<times> real \<Rightarrow> error + real \<times> real" where
  "widen frequencyRange self [] ui r = Inr r"
| "widen frequencyRange self (i # is) ui r =
     bind (widen_row frequencyRange self i ui r) (widen frequencyRange self is ui)"

text \<open>One step of that loop, on the pair \<open>(f_min, f_max)\<close>.\<close>

definition widen_step :: "real \<times> real \<Rightarrow> real \<times> real \<Rightarrow> real \<times> real" where
  "widen_step q r = (min (fst r) (fst q), max (snd r) (snd q))"

text \<open>
  A local variable that may not have been assigned is an \<open>option\<close>; reading it unassigned
  raises \<open>UnboundLocalError\<close>.
\<close>

definition read_local :: "string \<Rightarrow> 'a option \<Rightarrow> error + 'a" where
  "read_local name v =
     (case v of
        None \<Rightarrow> Inl (UnboundLocalError (Msg name))
      | Some x \<Rightarrow> Inr x)"

definition ZerosAndPoles_frequencyResponse ::
    "(complex list \<Rightarrow> complex list \<Rightarrow> (real \<times> real) option \<Rightarrow> real \<times> real)
      \<Rightarrow> (real list \<Rightarrow> real list)
      \<Rightarrow> ZerosAndPoles \<Rightarrow> nat \<Rightarrow> (real \<times> real) option \<Rightarrow> bool
      \<Rightarrow> int list option \<Rightarrow> int list option
      \<Rightarrow> error + real list \<times> y_val list list" where
  "ZerosAndPoles_frequencyResponse frequencyRange from_Hz self n f_range f_logspace
       u_indices y_indices =
     bind
       (case f_range of
          Some r \<Rightarrow> Inr (r, None, None)
        | None \<Rightarrow>
            (let ui = selection u_indices (nu self);
                 yi = selection y_indices (ny self)
             in bind (py_index yi 0) (\<lambda>i0.
                bind (py_index (zpk self) i0) (\<lambda>row.
                bind (py_index ui 0) (\<lambda>j0.
                bind (py_index row j0) (\<lambda>c.
                bind (widen frequencyRange self yi ui (frequencyRange (z c) (p c) None)) (\<lambda>r.
                Inr (r, Some ui, Some yi))))))))
       (\<lambda>((f_min, f_max), ui, yi).
          bind
            (if f_logspace
             then bind (math_log10 f_min) (\<lambda>lo.
                  bind (math_log10 f_max) (\<lambda>hi. Inr (logspace lo hi (n + 1))))
             else Inr (linspace f_min f_max (n + 1)))
            (\<lambda>f.
               let w = map (\<lambda>x. Complex 0 x) (from_Hz f)
               in bind (read_local ''ui'' ui) (\<lambda>ui'.
                  bind (read_local ''yi'' yi) (\<lambda>yi'.
                  bind (ZerosAndPoles_evaluate_at_s self (SArray w) (1 / 10 ^ 10)
                          (Some ui') (Some yi')) (\<lambda>Y.
                  Inr (f, Y))))))"

subsection \<open>Example entities\<close>

text \<open>
  The entity built from \<open>(g, [], [])\<close>, and a matrix of two rows and three columns built
  from six distinct such tuples.
\<close>

definition gain_only :: "real \<Rightarrow> ZerosAndPolesSISO" where
  "gain_only g = \<lparr>k = g, n1 = [], n2 = [], d1 = [], d2 = [], z = [], p = []\<rparr>"

definition matrix_2x3 :: ZerosAndPoles where
  "matrix_2x3 =
     \<lparr>zpk = [[gain_only 1, gain_only 2, gain_only 3], [gain_only 4, gain_only 5, gain_only 6]],
      nu = 3, ny = 2\<rparr>"

section \<open>Properties of \<open>transformRootsToPoly2\<close>\<close>


lemma slice2_Cons: "slice2 (y # xs) = y # slice2 (drop (Suc 0) xs)"
  by (cases xs) simp_all

lemma zip_slice2:
  "even (length xs) \<Longrightarrow>
   zip (slice2 xs) (slice2 (drop (Suc 0) xs)) = map (\<lambda>j. (xs ! (2 * j), xs ! (2 * j + 1))) [0 ..< length xs div 2]"
proof (induction xs rule: slice2.induct)
  case 1
  then show ?case by simp
next
  case (2 x)
  then show ?case by simp
next
  case (3 x y xs)
  have "[0 ..< Suc (length xs div 2)] = 0 # map Suc [0 ..< length xs div 2]"
    by (simp add: upt_conv_Cons map_Suc_upt del: upt_Suc)
  with 3 show ?case by (simp add: comp_def slice2_Cons del: upt_Suc)
qed

lemma isConj_slices:
  assumes "even (length roots)"
  shows "list_all id (isConj (slice2 roots) (slice2 (drop (Suc 0) roots))) = conjugate_valid roots"
  by (simp add: isConj_def conjugate_valid_def pair_valid_def zip_slice2 [OF assms]
      list_all_iff del: upt_Suc)

lemma transformRootsToPoly2_rows:
  assumes "even (length roots)" and "conjugate_valid roots"
  shows "transformRootsToPoly2 roots =
    Inr (map (\<lambda>j. (Re (roots ! (2 * j) * roots ! (2 * j + 1)),
                    Re (- (roots ! (2 * j) + roots ! (2 * j + 1)))))
          [0 ..< length roots div 2])"
  using assms
  by (simp add: transformRootsToPoly2_def Let_def isConj_slices zip_slice2 comp_def
      del: upt_Suc)

lemma transformRootsToPoly2_odd:
  "odd (length roots) \<Longrightarrow>
   transformRootsToPoly2 roots = Inl (ValueError (Msg ''Number of roots must be even.''))"
  by (simp add: transformRootsToPoly2_def Let_def odd_iff_mod_2_eq_one)

lemma transformRootsToPoly2_invalid:
  "even (length roots) \<Longrightarrow> \<not> conjugate_valid roots \<Longrightarrow>
   transformRootsToPoly2 roots =
     Inl (ValueError (MsgRoots ''Vector of roots are not all conjugate complex numbers: roots = '' roots))"
  by (simp add: transformRootsToPoly2_def Let_def isConj_slices)

text \<open>
  Claim C4.  For an even-length sequence of roots that passes the conjugate-validity test,
  \<open>transformRootsToPoly2\<close> returns \<open>n/2\<close> rows, and row \<open>j\<close> is \<open>(a, b)\<close> with
  \<open>a = Re (roots[2j] roots[2j+1])\<close> and \<open>b = Re (- (roots[2j] + roots[2j+1]))\<close>.  The witness
  is the example of the specification: \<open>[1+2j, 1-2j, 4-3j, 4+3j]\<close> gives the rows
  \<open>(5, -2)\<close> and \<open>(25, -8)\<close>.
\<close>

theorem transformRootsToPoly2_coefficients:
  assumes "even (length roots)" and "conjugate_valid roots"
  shows "transformRootsToPoly2 roots =
    Inr (map (\<lambda>j. (Re (roots ! (2 * j) * roots ! (2 * j + 1)),
                    Re (- (roots ! (2 * j) + roots ! (2 * j + 1)))))
          [0 ..< length roots div 2])"
  using assms by (rule transformRootsToPoly2_rows)

theorem transformRootsToPoly2_coefficients_witness:
  "even (length [Complex 1 2, Complex 1 (- 2), Complex 4 (- 3), Complex 4 3])
   \<and> conjugate_valid [Complex 1 2, Complex 1 (- 2), Complex 4 (- 3), Complex 4 3]
   \<and> transformRootsToPoly2 [Complex 1 2, Complex 1 (- 2), Complex 4 (- 3), Complex 4 3]
       = Inr [(5, - 2), (25, - 8)]"
proof -
  let ?r = "[Complex 1 2, Complex 1 (- 2), Complex 4 (- 3), Complex 4 3]"
  have e: "even (length ?r)" by simp
  have "[0 ..< length ?r div 2] = [0, 1]" by (simp add: upt_rec)
  then have v: "conjugate_valid ?r"
    by (simp add: conjugate_valid_def pair_valid_def eps_def float_info_epsilon_def cmod_def)
  from transformRootsToPoly2_coefficients [OF e v] e v
  show ?thesis by (simp add: upt_rec)
qed

text \<open>
  Claim C5.  \<open>transformRootsToPoly2\<close> fails exactly when the length is odd or some pair
  \<open>(roots[2j], roots[2j+1])\<close> violates \<open>|conj(r1) - r2| < \<epsilon> max(1, |r1.real|)\<close>, with
  \<open>\<epsilon>\<close> a hundred times the machine epsilon; every failure is an \<open>InvalidArgument\<close>
  (a \<open>ValueError\<close>); for an even length the message carries the root vector.  The witness
  has the two examples of the specification: \<open>[1+2j, 1-3j]\<close> and an input of three roots.
\<close>

theorem transformRootsToPoly2_fails_iff:
  "((\<exists>e. transformRootsToPoly2 roots = Inl e) \<longleftrightarrow>
      (odd (length roots) \<or> \<not> conjugate_valid roots))
   \<and> (\<forall>e. transformRootsToPoly2 roots = Inl e \<longrightarrow> InvalidArgument e)
   \<and> (odd (length roots) \<longrightarrow>
        transformRootsToPoly2 roots = Inl (ValueError (Msg ''Number of roots must be even.'')))
   \<and> (even (length roots) \<and> \<not> conjugate_valid roots \<longrightarrow>
        transformRootsToPoly2 roots = Inl (ValueError
          (MsgRoots ''Vector of roots are not all conjugate complex numbers: roots = '' roots)))"
proof (cases "odd (length roots)")
  case True
  then show ?thesis by (simp add: transformRootsToPoly2_odd)
next
  case False
  then have e: "even (length roots)" by simp
  show ?thesis
  proof (cases "conjugate_valid roots")
    case True
    with e show ?thesis by (simp add: transformRootsToPoly2_rows del: upt_Suc)
  next
    case False
    with e show ?thesis by (simp add: transformRootsToPoly2_invalid)
  qed
qed

theorem transformRootsToPoly2_fails_iff_witness:
  "even (length [Complex 1 2, Complex 1 (- 3)])
   \<and> \<not> conjugate_valid [Complex 1 2, Complex 1 (- 3)]
   \<and> transformRootsToPoly2 [Complex 1 2, Complex 1 (- 3)] = Inl (ValueError
        (MsgRoots ''Vector of roots are not all conjugate complex numbers: roots = ''
           [Complex 1 2, Complex 1 (- 3)]))
   \<and> InvalidArgument (ValueError
        (MsgRoots ''Vector of roots are not all conjugate complex numbers: roots = ''
           [Complex 1 2, Complex 1 (- 3)]))
   \<and> odd (length [Complex 1 0, Complex 2 0, Complex 3 0])
   \<and> transformRootsToPoly2 [Complex 1 0, Complex 2 0, Complex 3 0]
        = Inl (ValueError (Msg ''Number of roots must be even.''))"
proof -
  let ?r = "[Complex 1 2, Complex 1 (- 3)]"
  let ?q = "[Complex 1 0, Complex 2 0, Complex 3 0]"
  have e: "even (length ?r)" by simp
  have v: "\<not> conjugate_valid ?r"
    by (simp add: conjugate_valid_def pair_valid_def eps_def float_info_epsilon_def cmod_def)
  have o: "odd (length ?q)" by simp
  from transformRootsToPoly2_fails_iff [of ?r] transformRootsToPoly2_fails_iff [of ?q] e v o
  show ?thesis by simp
qed

section \<open>Properties of the SISO entity\<close>

subsection \<open>The loops compute the closed form\<close>


lemma foldl_imul_py:
  "foldl (\<lambda>num zj. imul_py num (ss + complex_of_real zj)) (PyComplex a) cs
     = PyComplex (a * factors1 cs ss)"
  by (induction cs arbitrary: a) (simp_all add: factors1_def mult.assoc)

lemma foldl_imul_np_aux:
  "foldl (\<lambda>num (aj, bj). imul_np num (complex_of_real aj + (complex_of_real bj + ss) * ss))
      (NpComplex128 a) rows = NpComplex128 (a * factors2 rows ss)"
  by (induction rows arbitrary: a) (simp_all add: factors2_def imul_np_def mult.assoc split: prod.splits)

lemma foldl_imul_np:
  "foldl (\<lambda>num (aj, bj). imul_np num (complex_of_real aj + (complex_of_real bj + ss) * ss))
      (PyComplex a) rows
     = (if rows = [] then PyComplex (a * factors2 rows ss) else NpComplex128 (a * factors2 rows ss))"
proof (cases rows)
  case Nil
  then show ?thesis by (simp add: factors2_def)
next
  case (Cons r rs)
  obtain aj bj where r: "r = (aj, bj)" by (cases r)
  have h: "imul_np (PyComplex a) c = NpComplex128 (a * c)" for c
    by (simp add: imul_np_def)
  show ?thesis
    unfolding Cons r
    by (simp add: h foldl_imul_np_aux) (simp add: factors2_def mult.assoc)
qed

lemma cval_py_denominator [simp]: "cval (py_denominator self s) = denominator self s"
  by (simp add: py_denominator_def)

lemma cval_py_numerator [simp]: "cval (py_numerator self s) = numerator self s"
  by (simp add: py_numerator_def)

lemma evaluate_scalar_closed:
  "evaluate_scalar self ss den_min =
     truediv (py_numerator self ss)
       (if cmod (denominator self ss) \<ge> den_min then py_denominator self ss else PyFloat den_min)"
proof -
  have n: "foldl (\<lambda>num (aj, bj). imul_np num (complex_of_real aj + (complex_of_real bj + ss) * ss))
      (foldl (\<lambda>num zj. imul_py num (ss + complex_of_real zj)) (PyComplex (complex_of_real (k self))) (n1 self))
      (n2 self) = py_numerator self ss"
    by (simp add: foldl_imul_py foldl_imul_np py_numerator_def numerator_def)
  have d: "foldl (\<lambda>num (aj, bj). imul_np num (complex_of_real aj + (complex_of_real bj + ss) * ss))
      (foldl (\<lambda>num zj. imul_py num (ss + complex_of_real zj)) (PyComplex 1) (d1 self))
      (d2 self) = py_denominator self ss"
    by (simp add: foldl_imul_py foldl_imul_np py_denominator_def denominator_def)
  show ?thesis
    unfolding evaluate_scalar_def Let_def n d by simp
qed

lemma map2_times_map:
  "map2 (*) (map g ss) (map h ss) = map (\<lambda>s. g s * h s) (ss :: complex list)"
  by (induction ss) simp_all

lemma foldl_array1:
  "foldl (\<lambda>num zj. map2 (*) num (map (\<lambda>s. s + complex_of_real zj) ss)) (map g ss) cs
     = map (\<lambda>s. g s * factors1 cs s) ss"
  by (induction cs arbitrary: g) (simp_all add: factors1_def map2_times_map mult.assoc)

lemma foldl_array2:
  "foldl (\<lambda>num (aj, bj). map2 (*) num
        (map (\<lambda>s. complex_of_real aj + (complex_of_real bj + s) * s) ss)) (map g ss) rows
     = map (\<lambda>s. g s * factors2 rows s) ss"
  by (induction rows arbitrary: g)
     (simp_all add: factors2_def map2_times_map mult.assoc split: prod.splits)

lemma evaluate_array_closed:
  "evaluate_array self ss den_min =
     map (\<lambda>s. np_divide (numerator self s)
            (if cmod (denominator self s) \<ge> den_min then denominator self s
             else complex_of_real den_min)) ss"
proof -
  have n: "foldl (\<lambda>num (aj, bj). map2 (*) num
        (map (\<lambda>s. complex_of_real aj + (complex_of_real bj + s) * s) ss))
      (foldl (\<lambda>num zj. map2 (*) num (map (\<lambda>s. s + complex_of_real zj) ss))
         (map (\<lambda>s. complex_of_real (k self)) ss) (n1 self)) (n2 self)
     = map (numerator self) ss"
    by (simp add: foldl_array1 foldl_array2 numerator_def)
  have d: "foldl (\<lambda>num (aj, bj). map2 (*) num
        (map (\<lambda>s. complex_of_real aj + (complex_of_real bj + s) * s) ss))
      (foldl (\<lambda>num zj. map2 (*) num (map (\<lambda>s. s + complex_of_real zj) ss))
         (map (\<lambda>s. 1) ss) (d1 self)) (d2 self)
     = map (denominator self) ss"
    by (simp add: foldl_array1 foldl_array2 denominator_def)
  have m: "map2 np_divide (map g ss) (map h ss) = map (\<lambda>s. np_divide (g s) (h s)) ss" for g h
    by (induction ss) simp_all
  show ?thesis
    unfolding evaluate_array_def Let_def n d by (simp add: m comp_def)
qed


lemma evaluate_at_s_scalar_closed:
  "ZerosAndPolesSISO_evaluate_at_s self (SScalar s) den_min =
     map_sum id YScalar (truediv (py_numerator self s)
       (if cmod (denominator self s) \<ge> den_min then py_denominator self s else PyFloat den_min))"
  by (simp add: ZerosAndPolesSISO_evaluate_at_s_def evaluate_scalar_closed split: sum.splits)

lemma evaluate_at_s_array_closed:
  "ZerosAndPolesSISO_evaluate_at_s self (SArray ss) den_min =
     Inr (YArray (map (\<lambda>s. np_divide (numerator self s)
            (if cmod (denominator self s) \<ge> den_min then denominator self s
             else complex_of_real den_min)) ss))"
  by (simp add: ZerosAndPolesSISO_evaluate_at_s_def evaluate_array_closed)

lemma truediv_nonzero:
  "cval b \<noteq> 0 \<Longrightarrow> truediv a b = Inr (Finite (cval a / cval b))"
  by (simp add: truediv_def)

lemma factors_eval:
  "factors1 [] s = 1" "factors1 (c # cs) s = (s + complex_of_real c) * factors1 cs s"
  "factors2 [] s = 1"
  "factors2 ((a, b) # rows) s = (complex_of_real a + (complex_of_real b + s) * s) * factors2 rows s"
  by (simp_all add: factors1_def factors2_def)

subsection \<open>The floor \<open>den_min\<close>\<close>

text \<open>
  Claim C7 says that for every \<open>den_min \<ge> 0\<close> the evaluation returns the numerator over
  the denominator when \<open>|denominator(s)| \<ge> den_min\<close>.  With \<open>den_min = 0\<close> and \<open>s\<close> a pole
  the condition holds, and for a scalar point on an entity with first-order factors only
  nothing is returned: the division of two Python \<open>complex\<close> values raises
  \<open>ZeroDivisionError\<close>.  The entity is the one the constructor builds from \<open>(2, [1], [0])\<close>,
  evaluated at its pole \<open>0\<close>.
\<close>

theorem evaluate_at_s_floor_counterexample:
  "(0::real) \<le> 0
   \<and> ZerosAndPolesSISO_init3 2 (Sequence [1]) (Sequence [0])
       = Inr \<lparr>k = 2, n1 = [- 1], n2 = [], d1 = [0], d2 = [], z = [1], p = [0]\<rparr>
   \<and> 0 \<le> cmod (denominator \<lparr>k = 2, n1 = [- 1], n2 = [], d1 = [0], d2 = [], z = [1], p = [0]\<rparr> 0)
   \<and> ZerosAndPolesSISO_evaluate_at_s
        \<lparr>k = 2, n1 = [- 1], n2 = [], d1 = [0], d2 = [], z = [1], p = [0]\<rparr> (SScalar 0) 0
       = Inl (ZeroDivisionError (Msg ''complex division by zero''))"
proof -
  let ?S = "\<lparr>k = 2, n1 = [- 1], n2 = [], d1 = [0], d2 = [], z = [1], p = [0]\<rparr>"
  have i: "ZerosAndPolesSISO_init3 2 (Sequence [1]) (Sequence [0]) = Inr ?S"
    by (simp add: ZerosAndPolesSISO_init3_def transformRootsToPoly2_def isConj_def)
  have d: "denominator ?S 0 = 0"
    by (simp add: denominator_def factors_eval)
  have e: "ZerosAndPolesSISO_evaluate_at_s ?S (SScalar 0) 0
      = Inl (ZeroDivisionError (Msg ''complex division by zero''))"
    by (simp add: evaluate_at_s_scalar_closed d truediv_def py_denominator_def py_numerator_def)
  from i d e show ?thesis by simp
qed

text \<open>
  Claim C7 as amended.  For \<open>den_min \<ge> 0\<close>, \<open>evaluate_at_s\<close> returns the numerator over the
  denominator when \<open>|denominator(s)| \<ge> den_min\<close> and the denominator is not zero, and the
  numerator over the scalar \<open>den_min\<close> itself when \<open>|denominator(s)| < den_min\<close>; for an
  array the same choice of divisor is made point by point.  Consequently a system with a
  pole at \<open>s = 0\<close>, evaluated at \<open>s = 0\<close> with \<open>den_min = 1e-10\<close>, yields the finite value
  \<open>num(0) / 1e-10\<close>.
\<close>

theorem evaluate_at_s_den_min_floor:
  assumes "0 \<le> den_min"
  shows "(den_min \<le> cmod (denominator self s) \<and> denominator self s \<noteq> 0 \<longrightarrow>
            ZerosAndPolesSISO_evaluate_at_s self (SScalar s) den_min
              = Inr (YScalar (Finite (numerator self s / denominator self s))))
       \<and> (cmod (denominator self s) < den_min \<longrightarrow>
            ZerosAndPolesSISO_evaluate_at_s self (SScalar s) den_min
              = Inr (YScalar (Finite (numerator self s / complex_of_real den_min))))
       \<and> ZerosAndPolesSISO_evaluate_at_s self (SArray ss) den_min
            = Inr (YArray (map (\<lambda>s. np_divide (numerator self s)
                (if den_min \<le> cmod (denominator self s) then denominator self s
                 else complex_of_real den_min)) ss))
       \<and> (denominator self s \<noteq> 0 \<longrightarrow>
            np_divide (numerator self s) (denominator self s)
              = Finite (numerator self s / denominator self s))
       \<and> (denominator self 0 = 0 \<longrightarrow>
            ZerosAndPolesSISO_evaluate_at_s self (SScalar 0) (1 / 10 ^ 10)
              = Inr (YScalar (Finite (numerator self 0 / complex_of_real (1 / 10 ^ 10)))))"
proof -
  have b: "den_min \<le> cmod (denominator self s) \<Longrightarrow> denominator self s \<noteq> 0 \<Longrightarrow>
      ZerosAndPolesSISO_evaluate_at_s self (SScalar s) den_min
        = Inr (YScalar (Finite (numerator self s / denominator self s)))"
    by (simp add: evaluate_at_s_scalar_closed truediv_nonzero)
  have c: "cmod (denominator self s) < den_min \<Longrightarrow>
      ZerosAndPolesSISO_evaluate_at_s self (SScalar s) den_min
        = Inr (YScalar (Finite (numerator self s / complex_of_real den_min)))"
  proof -
    assume lt: "cmod (denominator self s) < den_min"
    have "0 \<le> cmod (denominator self s)" by simp
    with lt have "den_min \<noteq> 0" by linarith
    with lt show ?thesis
      by (simp add: evaluate_at_s_scalar_closed truediv_nonzero)
  qed
  have d: "denominator self 0 = 0 \<Longrightarrow>
      ZerosAndPolesSISO_evaluate_at_s self (SScalar 0) (1 / 10 ^ 10)
        = Inr (YScalar (Finite (numerator self 0 / complex_of_real (1 / 10 ^ 10))))"
    by (simp add: evaluate_at_s_scalar_closed truediv_nonzero)
  from b c d show ?thesis
    by (simp add: evaluate_at_s_array_closed np_divide_def)
qed

theorem evaluate_at_s_den_min_floor_witness:
  "(0::real) \<le> 1 / 10 ^ 10
   \<and> denominator \<lparr>k = 2, n1 = [- 1], n2 = [], d1 = [0], d2 = [], z = [1], p = [0]\<rparr> 0 = 0
   \<and> cmod (denominator \<lparr>k = 2, n1 = [- 1], n2 = [], d1 = [0], d2 = [], z = [1], p = [0]\<rparr> 0)
        < 1 / 10 ^ 10
   \<and> ZerosAndPolesSISO_evaluate_at_s
        \<lparr>k = 2, n1 = [- 1], n2 = [], d1 = [0], d2 = [], z = [1], p = [0]\<rparr>
        (SScalar 0) (1 / 10 ^ 10) = Inr (YScalar (Finite (- 20000000000)))
   \<and> 1 / 10 ^ 10 \<le> cmod (denominator \<lparr>k = 2, n1 = [- 1], n2 = [], d1 = [0], d2 = [], z = [1], p = [0]\<rparr> 3)
   \<and> denominator \<lparr>k = 2, n1 = [- 1], n2 = [], d1 = [0], d2 = [], z = [1], p = [0]\<rparr> 3 \<noteq> 0
   \<and> ZerosAndPolesSISO_evaluate_at_s
        \<lparr>k = 2, n1 = [- 1], n2 = [], d1 = [0], d2 = [], z = [1], p = [0]\<rparr>
        (SScalar 3) (1 / 10 ^ 10) = Inr (YScalar (Finite (4 / 3)))"
proof -
  let ?S = "\<lparr>k = 2, n1 = [- 1], n2 = [], d1 = [0], d2 = [], z = [1], p = [0]\<rparr>"
  have le: "(0::real) \<le> 1 / 10 ^ 10" by simp
  have d0: "denominator ?S 0 = 0" by (simp add: denominator_def factors_eval)
  have d3: "denominator ?S 3 = 3" by (simp add: denominator_def factors_eval)
  have n0: "numerator ?S 0 = - 2" by (simp add: numerator_def factors_eval)
  have n3: "numerator ?S 3 = 4" by (simp add: numerator_def factors_eval)
  from evaluate_at_s_den_min_floor [OF le, of ?S 0 "[]", THEN conjunct2, THEN conjunct2,
      THEN conjunct2, THEN conjunct2] d0 n0
  have e0: "ZerosAndPolesSISO_evaluate_at_s ?S (SScalar 0) (1 / 10 ^ 10)
      = Inr (YScalar (Finite (- 20000000000)))"
    by simp
  from evaluate_at_s_den_min_floor [OF le, of ?S 3 "[]", THEN conjunct1] d3 n3
  have e3: "ZerosAndPolesSISO_evaluate_at_s ?S (SScalar 3) (1 / 10 ^ 10)
      = Inr (YScalar (Finite (4 / 3)))"
    by simp
  from le d0 d3 e0 e3 show ?thesis by simp
qed

subsection \<open>The gain\<close>

text \<open>
  Claim C9.  \<open>set_k\<close> overwrites the gain \<open>k\<close> and nothing else: \<open>n1\<close>, \<open>n2\<close>, \<open>d1\<close>, \<open>d2\<close>,
  \<open>z\<close> and \<open>p\<close> are unchanged.
\<close>

theorem set_k_overwrites_only_k:
  "k (ZerosAndPolesSISO_set_k self k_new) = k_new
   \<and> n1 (ZerosAndPolesSISO_set_k self k_new) = n1 self
   \<and> n2 (ZerosAndPolesSISO_set_k self k_new) = n2 self
   \<and> d1 (ZerosAndPolesSISO_set_k self k_new) = d1 self
   \<and> d2 (ZerosAndPolesSISO_set_k self k_new) = d2 self
   \<and> z (ZerosAndPolesSISO_set_k self k_new) = z self
   \<and> p (ZerosAndPolesSISO_set_k self k_new) = p self"
  by (simp add: ZerosAndPolesSISO_set_k_def)

subsection \<open>The default \<open>den_min = 0\<close>\<close>




subsection \<open>Construction from the root form\<close>




lemmas init3_eval = ZerosAndPolesSISO_init3_def transformRootsToPoly2_def isConj_def eps_def
  float_info_epsilon_def cmod_def



subsection \<open>Evaluation against the reference \<open>k \<Prod>(s - z\<^sub>i) / \<Prod>(s - p\<^sub>i)\<close>\<close>

lemma pair_valid_cnj: "pair_valid a (cnj a)"
  by (auto simp: pair_valid_def eps_def float_info_epsilon_def max_def)

lemma exact_pairs_valid: "exact_pairs roots \<Longrightarrow> conjugate_valid roots"
  by (auto simp: exact_pairs_def conjugate_valid_def list_all_iff pair_valid_cnj)

lemma prod_list_partition:
  "prod_list (map f xs) =
     prod_list (map f (filter P xs)) * prod_list (map f (filter (\<lambda>x. \<not> P x) xs))"
  for f :: "'a \<Rightarrow> complex"
  by (induction xs) simp_all

lemma root_product_real:
  "root_product (filter (\<lambda>c. Im c = 0) rs) s
     = factors1 (map (\<lambda>c. - Re c) (filter (\<lambda>c. Im c = 0) rs)) s"
  by (induction rs) (simp_all add: root_product_def factors1_def complex_eq_iff)

lemma conj_pair_factor:
  "(s - a) * (s - cnj a)
     = complex_of_real (Re (a * cnj a)) + (complex_of_real (Re (- (a + cnj a))) + s) * s"
  by (simp add: complex_eq_iff algebra_simps)

lemma root_product_pairs_zip:
  "even (length ws) \<Longrightarrow>
   list_all (\<lambda>(a, b). b = cnj a) (zip (slice2 ws) (slice2 (drop (Suc 0) ws))) \<Longrightarrow>
   root_product ws s
     = factors2 (map (\<lambda>(a, b). (Re (a * b), Re (- (a + b))))
         (zip (slice2 ws) (slice2 (drop (Suc 0) ws)))) s"
proof (induction ws rule: slice2.induct)
  case 1
  then show ?case by (simp add: root_product_def factors2_def)
next
  case (2 x)
  then show ?case by simp
next
  case (3 x y xs)
  from 3(3) have y: "y = cnj x"
    and r: "list_all (\<lambda>(a, b). b = cnj a) (zip (slice2 xs) (slice2 (drop (Suc 0) xs)))"
    by (simp_all add: slice2_Cons)
  from 3(2) have e: "even (length xs)" by simp
  have ih: "root_product xs s
     = factors2 (map (\<lambda>(a, b). (Re (a * b), Re (- (a + b))))
         (zip (slice2 xs) (slice2 (drop (Suc 0) xs)))) s"
    using 3(1) e r by simp
  have "root_product (x # y # xs) s = ((s - x) * (s - cnj x)) * root_product xs s"
    by (simp add: root_product_def y mult.assoc)
  also have "\<dots> = (complex_of_real (Re (x * cnj x))
        + (complex_of_real (Re (- (x + cnj x))) + s) * s) * root_product xs s"
    by (simp only: conj_pair_factor)
  finally show ?case
    by (simp add: ih slice2_Cons y factors2_def)
qed

lemma root_product_pairs:
  assumes "exact_pairs ws"
  shows "root_product ws s
     = factors2 (map (\<lambda>j. (Re (ws ! (2 * j) * ws ! (2 * j + 1)),
                            Re (- (ws ! (2 * j) + ws ! (2 * j + 1)))))
          [0 ..< length ws div 2]) s"
proof -
  from assms have e: "even (length ws)" by (simp add: exact_pairs_def)
  from assms have "list_all (\<lambda>(a, b). b = cnj a) (zip (slice2 ws) (slice2 (drop (Suc 0) ws)))"
    by (simp add: exact_pairs_def zip_slice2 [OF e] list_all_iff del: upt_Suc)
  from root_product_pairs_zip [OF e this, of s] show ?thesis
    by (simp add: zip_slice2 [OF e] comp_def del: upt_Suc)
qed

lemma root_product_split:
  "root_product rs s
     = root_product (filter (\<lambda>c. Im c = 0) rs) s * root_product (filter (\<lambda>c. Im c \<noteq> 0) rs) s"
  unfolding root_product_def by (rule prod_list_partition)

lemma init3_exact:
  assumes "exact_pairs (filter (\<lambda>c. Im c \<noteq> 0) (array_ndmin1 zeros))"
      and "exact_pairs (filter (\<lambda>c. Im c \<noteq> 0) (array_ndmin1 poles))"
  shows "\<exists>self. ZerosAndPolesSISO_init3 gain zeros poles = Inr self
           \<and> numerator self s = complex_of_real gain * root_product (array_ndmin1 zeros) s
           \<and> denominator self s = root_product (array_ndmin1 poles) s"
proof -
  let ?zc = "filter (\<lambda>c. Im c \<noteq> 0) (array_ndmin1 zeros)"
  let ?pc = "filter (\<lambda>c. Im c \<noteq> 0) (array_ndmin1 poles)"
  let ?rows = "\<lambda>w. map (\<lambda>j. (Re (w ! (2 * j) * w ! (2 * j + 1)),
                            Re (- (w ! (2 * j) + w ! (2 * j + 1))))) [0 ..< length w div 2]"
  from assms have ez: "even (length ?zc)" and ep: "even (length ?pc)"
    by (simp_all add: exact_pairs_def)
  have tz: "transformRootsToPoly2 ?zc = Inr (?rows ?zc)"
    by (rule transformRootsToPoly2_rows [OF ez exact_pairs_valid [OF assms(1)]])
  have tp: "transformRootsToPoly2 ?pc = Inr (?rows ?pc)"
    by (rule transformRootsToPoly2_rows [OF ep exact_pairs_valid [OF assms(2)]])
  let ?S = "\<lparr>k = gain,
            n1 = map (\<lambda>c. - Re c) (filter (\<lambda>c. Im c = 0) (array_ndmin1 zeros)),
            n2 = ?rows ?zc,
            d1 = map (\<lambda>c. - Re c) (filter (\<lambda>c. Im c = 0) (array_ndmin1 poles)),
            d2 = ?rows ?pc,
            z = array_ndmin1 zeros, p = array_ndmin1 poles\<rparr>"
  have i: "ZerosAndPolesSISO_init3 gain zeros poles = Inr ?S"
    unfolding ZerosAndPolesSISO_init3_def Let_def tz tp by simp
  have fz: "factors2 (?rows ?zc) s = root_product ?zc s"
    by (rule root_product_pairs [OF assms(1), symmetric])
  have fp: "factors2 (?rows ?pc) s = root_product ?pc s"
    by (rule root_product_pairs [OF assms(2), symmetric])
  have "numerator ?S s = complex_of_real gain
      * factors1 (map (\<lambda>c. - Re c) (filter (\<lambda>c. Im c = 0) (array_ndmin1 zeros))) s
      * factors2 (?rows ?zc) s"
    unfolding numerator_def by (simp only: ZerosAndPolesSISO.select_convs)
  then have n: "numerator ?S s = complex_of_real gain * root_product (array_ndmin1 zeros) s"
    by (simp only: fz root_product_real [symmetric]
        root_product_split [of "array_ndmin1 zeros" s] mult.assoc)
  have "denominator ?S s
      = factors1 (map (\<lambda>c. - Re c) (filter (\<lambda>c. Im c = 0) (array_ndmin1 poles))) s
      * factors2 (?rows ?pc) s"
    unfolding denominator_def by (simp only: ZerosAndPolesSISO.select_convs)
  then have d: "denominator ?S s = root_product (array_ndmin1 poles) s"
    by (simp only: fp root_product_real [symmetric]
        root_product_split [of "array_ndmin1 poles" s])
  from i n d show ?thesis by blast
qed

lemma within_rel_refl: "0 \<le> tol \<Longrightarrow> within_rel tol y y"
  by (simp add: within_rel_def)

lemma evaluate_at_s_finite:
  "denominator self s \<noteq> 0 \<Longrightarrow>
   ZerosAndPolesSISO_evaluate_at_s self (SScalar s) 0
     = Inr (YScalar (Finite (numerator self s / denominator self s)))"
  by (simp add: evaluate_at_s_scalar_closed truediv_nonzero)

lemma upt_2: "[0 ..< 2] = [0, 1]" "[0 ..< 1] = [0]"
  by (simp_all add: upt_rec)

text \<open>
  Claim C3 says that for conjugate-valid roots the evaluation agrees with the reference
  within \<open>1e-9\<close> relative error at every point.  The validity test accepts a pair that is
  conjugate only up to \<open>\<epsilon> max(1, |r1.real|)\<close>, and the conversion then drops the imaginary
  parts of the product and the sum.  For the zeros \<open>j\<close> and \<open>-(1 + 1e-14) j\<close> (a valid pair),
  no poles and gain \<open>1\<close>, the code evaluates \<open>s\<^sup>2 + 1 + 1e-14\<close>; at \<open>s = (1 + 1e-14) j\<close>
  this is half the reference \<open>(s - j) (s + (1 + 1e-14) j)\<close>.
\<close>

theorem evaluate_at_s_reference_counterexample:
  "conjugate_valid (filter (\<lambda>c. Im c \<noteq> 0)
      (array_ndmin1 (Sequence [Complex 0 1, Complex 0 (- (1 + 1 / 10 ^ 14))])))
   \<and> conjugate_valid (filter (\<lambda>c. Im c \<noteq> 0) (array_ndmin1 (Sequence [])))
   \<and> ZerosAndPolesSISO_init3 1 (Sequence [Complex 0 1, Complex 0 (- (1 + 1 / 10 ^ 14))])
        (Sequence [])
       = Inr \<lparr>k = 1, n1 = [], n2 = [(1 + 1 / 10 ^ 14, 0)], d1 = [], d2 = [],
              z = [Complex 0 1, Complex 0 (- (1 + 1 / 10 ^ 14))], p = []\<rparr>
   \<and> ZerosAndPolesSISO_evaluate_at_s
        \<lparr>k = 1, n1 = [], n2 = [(1 + 1 / 10 ^ 14, 0)], d1 = [], d2 = [],
              z = [Complex 0 1, Complex 0 (- (1 + 1 / 10 ^ 14))], p = []\<rparr>
        (SScalar (Complex 0 (1 + 1 / 10 ^ 14))) 0
       = Inr (YScalar (Finite (Complex (- ((1 + 1 / 10 ^ 14) * (1 / 10 ^ 14))) 0)))
   \<and> reference_value 1 [Complex 0 1, Complex 0 (- (1 + 1 / 10 ^ 14))] []
        (Complex 0 (1 + 1 / 10 ^ 14))
       = Complex (- (2 * (1 + 1 / 10 ^ 14) * (1 / 10 ^ 14))) 0
   \<and> \<not> within_rel (1 / 10 ^ 9)
        (Complex (- ((1 + 1 / 10 ^ 14) * (1 / 10 ^ 14))) 0)
        (reference_value 1 [Complex 0 1, Complex 0 (- (1 + 1 / 10 ^ 14))] []
          (Complex 0 (1 + 1 / 10 ^ 14)))"
proof -
  let ?zs = "[Complex 0 1, Complex 0 (- (1 + 1 / 10 ^ 14))]"
  let ?S = "\<lparr>k = 1, n1 = [], n2 = [(1 + 1 / 10 ^ 14, 0)], d1 = [], d2 = [],
              z = ?zs, p = []\<rparr>"
  let ?s = "Complex 0 (1 + 1 / 10 ^ 14)"
  have v: "conjugate_valid (filter (\<lambda>c. Im c \<noteq> 0) (array_ndmin1 (Sequence ?zs)))"
    by (simp add: conjugate_valid_def pair_valid_def eps_def float_info_epsilon_def cmod_def upt_2)
  have v0: "conjugate_valid (filter (\<lambda>c. Im c \<noteq> 0) (array_ndmin1 (Sequence [])))"
    by (simp add: conjugate_valid_def)
  have i: "ZerosAndPolesSISO_init3 1 (Sequence ?zs) (Sequence []) = Inr ?S"
    by (simp add: init3_eval)
  have n: "numerator ?S ?s = Complex (- ((1 + 1 / 10 ^ 14) * (1 / 10 ^ 14))) 0"
    by (simp add: numerator_def factors_eval complex_eq_iff)
  have d: "denominator ?S ?s = 1"
    by (simp add: denominator_def factors_eval)
  have e: "ZerosAndPolesSISO_evaluate_at_s ?S (SScalar ?s) 0
       = Inr (YScalar (Finite (Complex (- ((1 + 1 / 10 ^ 14) * (1 / 10 ^ 14))) 0)))"
    using evaluate_at_s_finite [of ?S ?s] unfolding n d by simp
  have r: "reference_value 1 ?zs [] ?s = Complex (- (2 * (1 + 1 / 10 ^ 14) * (1 / 10 ^ 14))) 0"
    by (simp add: reference_value_def root_product_def complex_eq_iff)
  have w: "\<not> within_rel (1 / 10 ^ 9)
        (Complex (- ((1 + 1 / 10 ^ 14) * (1 / 10 ^ 14))) 0) (reference_value 1 ?zs [] ?s)"
    unfolding r by (simp add: within_rel_def cmod_def)
  from v v0 i e r w show ?thesis by blast
qed

text \<open>
  In exact arithmetic the factored form and the root form are the same function when the
  strictly complex zeros and poles form exactly conjugate consecutive pairs: the
  construction succeeds, and at every point that is not a pole the evaluation is the
  reference value.  In double arithmetic this agreement is not uniform in \<open>s\<close>: close to a
  zero the sum \<open>a + (b + s) s\<close> cancels, and the rounding of \<open>a\<close> and \<open>b\<close> is no longer small
  against it.
\<close>

lemma evaluate_at_s_exact_pairs:
  assumes "exact_pairs (filter (\<lambda>c. Im c \<noteq> 0) (array_ndmin1 zeros))"
      and "exact_pairs (filter (\<lambda>c. Im c \<noteq> 0) (array_ndmin1 poles))"
      and "root_product (array_ndmin1 poles) s \<noteq> 0"
  shows "\<exists>self y. ZerosAndPolesSISO_init3 gain zeros poles = Inr self
           \<and> ZerosAndPolesSISO_evaluate_at_s self (SScalar s) 0 = Inr (YScalar (Finite y))
           \<and> y = reference_value gain (array_ndmin1 zeros) (array_ndmin1 poles) s
           \<and> within_rel (1 / 10 ^ 9) y
                (reference_value gain (array_ndmin1 zeros) (array_ndmin1 poles) s)"
proof -
  from init3_exact [OF assms(1,2), of gain s] obtain self where
    i: "ZerosAndPolesSISO_init3 gain zeros poles = Inr self"
    and n: "numerator self s = complex_of_real gain * root_product (array_ndmin1 zeros) s"
    and d: "denominator self s = root_product (array_ndmin1 poles) s"
    by blast
  from d assms(3) have nz: "cval (py_denominator self s) \<noteq> 0" by simp
  have "ZerosAndPolesSISO_evaluate_at_s self (SScalar s) 0
      = Inr (YScalar (Finite (numerator self s / denominator self s)))"
    by (simp add: evaluate_at_s_scalar_closed truediv_nonzero [OF nz])
  then have e: "ZerosAndPolesSISO_evaluate_at_s self (SScalar s) 0
      = Inr (YScalar (Finite (reference_value gain (array_ndmin1 zeros) (array_ndmin1 poles) s)))"
    by (simp add: n d reference_value_def)
  from i e show ?thesis
    by (auto simp: within_rel_refl)
qed

text \<open>
  Claim C3 as amended.  For the entity constructed from \<open>k = 3.1\<close>, zeros
  \<open>[4, 2-3j, 2+3j]\<close> and poles \<open>[1+2j, 1-2j, 5, 6, 4-3j, 4+3j, 7]\<close>, \<open>evaluate_at_s\<close> at
  \<open>s = 2\<close> and at \<open>s = 3\<close> agrees with the reference \<open>k \<Prod>(s - z\<^sub>i) / \<Prod>(s - p\<^sub>i)\<close> within
  \<open>1e-9\<close> relative error: the values are \<open>93/6500\<close> and \<open>31/1920\<close>.
\<close>

theorem evaluate_at_s_spec_example:
  "ZerosAndPolesSISO_init3 (31 / 10)
      (Sequence [Complex 4 0, Complex 2 (- 3), Complex 2 3])
      (Sequence [Complex 1 2, Complex 1 (- 2), Complex 5 0, Complex 6 0,
                 Complex 4 (- 3), Complex 4 3, Complex 7 0])
     = Inr \<lparr>k = 31 / 10, n1 = [- 4], n2 = [(13, - 4)], d1 = [- 5, - 6, - 7],
            d2 = [(5, - 2), (25, - 8)],
            z = [Complex 4 0, Complex 2 (- 3), Complex 2 3],
            p = [Complex 1 2, Complex 1 (- 2), Complex 5 0, Complex 6 0,
                 Complex 4 (- 3), Complex 4 3, Complex 7 0]\<rparr>
   \<and> ZerosAndPolesSISO_evaluate_at_s
        \<lparr>k = 31 / 10, n1 = [- 4], n2 = [(13, - 4)], d1 = [- 5, - 6, - 7],
            d2 = [(5, - 2), (25, - 8)],
            z = [Complex 4 0, Complex 2 (- 3), Complex 2 3],
            p = [Complex 1 2, Complex 1 (- 2), Complex 5 0, Complex 6 0,
                 Complex 4 (- 3), Complex 4 3, Complex 7 0]\<rparr> (SScalar 2) 0
       = Inr (YScalar (Finite (93 / 6500)))
   \<and> within_rel (1 / 10 ^ 9) (93 / 6500)
        (reference_value (31 / 10) [Complex 4 0, Complex 2 (- 3), Complex 2 3]
           [Complex 1 2, Complex 1 (- 2), Complex 5 0, Complex 6 0,
            Complex 4 (- 3), Complex 4 3, Complex 7 0] 2)
   \<and> ZerosAndPolesSISO_evaluate_at_s
        \<lparr>k = 31 / 10, n1 = [- 4], n2 = [(13, - 4)], d1 = [- 5, - 6, - 7],
            d2 = [(5, - 2), (25, - 8)],
            z = [Complex 4 0, Complex 2 (- 3), Complex 2 3],
            p = [Complex 1 2, Complex 1 (- 2), Complex 5 0, Complex 6 0,
                 Complex 4 (- 3), Complex 4 3, Complex 7 0]\<rparr> (SScalar 3) 0
       = Inr (YScalar (Finite (31 / 1920)))
   \<and> within_rel (1 / 10 ^ 9) (31 / 1920)
        (reference_value (31 / 10) [Complex 4 0, Complex 2 (- 3), Complex 2 3]
           [Complex 1 2, Complex 1 (- 2), Complex 5 0, Complex 6 0,
            Complex 4 (- 3), Complex 4 3, Complex 7 0] 3)"
proof -
  let ?zs = "[Complex 4 0, Complex 2 (- 3), Complex 2 3]"
  let ?ps = "[Complex 1 2, Complex 1 (- 2), Complex 5 0, Complex 6 0,
                 Complex 4 (- 3), Complex 4 3, Complex 7 0]"
  let ?S = "\<lparr>k = 31 / 10, n1 = [- 4], n2 = [(13, - 4)], d1 = [- 5, - 6, - 7],
            d2 = [(5, - 2), (25, - 8)], z = ?zs, p = ?ps\<rparr>"
  have i: "ZerosAndPolesSISO_init3 (31 / 10) (Sequence ?zs) (Sequence ?ps) = Inr ?S"
    by (simp add: init3_eval)
  have n2: "numerator ?S 2 = - (279 / 5)" and d2: "denominator ?S 2 = - 3900"
    and n3: "numerator ?S 3 = - 31" and d3: "denominator ?S 3 = - 1920"
    by (simp_all add: numerator_def denominator_def factors_eval)
  have e2: "ZerosAndPolesSISO_evaluate_at_s ?S (SScalar 2) 0 = Inr (YScalar (Finite (93 / 6500)))"
    using evaluate_at_s_finite [of ?S 2] unfolding n2 d2 by simp
  have e3: "ZerosAndPolesSISO_evaluate_at_s ?S (SScalar 3) 0 = Inr (YScalar (Finite (31 / 1920)))"
    using evaluate_at_s_finite [of ?S 3] unfolding n3 d3 by simp
  have r2: "reference_value (31 / 10) ?zs ?ps 2 = 93 / 6500"
    by (simp add: reference_value_def root_product_def complex_eq_iff Re_divide Im_divide)
  have r3: "reference_value (31 / 10) ?zs ?ps 3 = 31 / 1920"
    by (simp add: reference_value_def root_product_def complex_eq_iff Re_divide Im_divide)
  have w2: "within_rel (1 / 10 ^ 9) (93 / 6500) (reference_value (31 / 10) ?zs ?ps 2)"
    unfolding r2 by (rule within_rel_refl) simp
  have w3: "within_rel (1 / 10 ^ 9) (31 / 1920) (reference_value (31 / 10) ?zs ?ps 3)"
    unfolding r3 by (rule within_rel_refl) simp
  from i e2 w2 e3 w3 show ?thesis by blast
qed

section \<open>Properties of the MIMO matrix\<close>

subsection \<open>Indexed access\<close>

lemma py_index_in_range:
  "0 \<le> i \<Longrightarrow> i < int (length xs) \<Longrightarrow> py_index xs i = Inr (xs ! nat i)"
  by (simp add: py_index_def)

lemma bind_Inr [simp]: "bind (Inr v) f = f v"
  by (simp add: bind_def)

lemma bind_Inl [simp]: "bind (Inl e) f = Inl e"
  by (simp add: bind_def)

lemma rectangular_row:
  "rectangular self \<Longrightarrow> i < ny self \<Longrightarrow> length (zpk self ! i) = nu self"
  by (simp add: rectangular_def list_all_length)

lemma cell_in_range:
  assumes "rectangular self" "0 \<le> i" "i < int (ny self)" "0 \<le> j" "j < int (nu self)"
  shows "cell self i j = Inr (zpk self ! nat i ! nat j)"
proof -
  from assms have l: "i < int (length (zpk self))" by (simp add: rectangular_def)
  from assms have "nat i < ny self" by simp
  from rectangular_row [OF assms(1) this] assms have r: "j < int (length (zpk self ! nat i))"
    by simp
  show ?thesis
    unfolding cell_def
    by (simp add: py_index_in_range [OF assms(2) l] py_index_in_range [OF assms(4) r])
qed

lemma init3_gain_only:
  "ZerosAndPolesSISO_init3 g (Sequence []) (Sequence []) = Inr (gain_only g)"
  by (simp add: init3_eval gain_only_def)

lemma rectangular_2x3: "rectangular matrix_2x3"
  by (simp add: rectangular_def matrix_2x3_def)

text \<open>
  Claim C2.  On a matrix of \<open>ny\<close> rows and \<open>nu\<close> columns, indexing with \<open>(row, col)\<close>,
  \<open>0 \<le> row < ny\<close> and \<open>0 \<le> col < nu\<close>, returns the entity stored at that cell; a key whose
  length is not two fails with \<open>InvalidArgument\<close> (a \<open>TypeError\<close>); a key of length two
  with a component out of range fails with \<open>OutOfRange\<close> (an \<open>IndexError\<close>).  The witness
  is a matrix of two rows and three columns with six distinct entities: every valid cell,
  the key \<open>(2, 0)\<close>, a key of one and a key of three components.
\<close>

theorem getitem_indexing:
  assumes "rectangular self"
  shows "(0 \<le> r \<and> r < int (ny self) \<and> 0 \<le> c \<and> c < int (nu self) \<longrightarrow>
            ZerosAndPoles_getitem self [r, c] = Inr (zpk self ! nat r ! nat c))
       \<and> (length key \<noteq> 2 \<longrightarrow>
            (\<exists>e. ZerosAndPoles_getitem self key = Inl e \<and> InvalidArgument e))
       \<and> (r < 0 \<or> int (ny self) \<le> r \<or> c < 0 \<or> int (nu self) \<le> c \<longrightarrow>
            (\<exists>e. ZerosAndPoles_getitem self [r, c] = Inl e \<and> OutOfRange e))"
proof -
  have a: "ZerosAndPoles_getitem self [r, c] = Inr (zpk self ! nat r ! nat c)"
    if "0 \<le> r" "r < int (ny self)" "0 \<le> c" "c < int (nu self)"
    using cell_in_range [OF assms that] that
    by (simp add: ZerosAndPoles_getitem_def cell_def)
  have b: "\<exists>e. ZerosAndPoles_getitem self key = Inl e \<and> InvalidArgument e"
    if "length key \<noteq> 2"
    using that by (simp add: ZerosAndPoles_getitem_def)
  have c: "\<exists>e. ZerosAndPoles_getitem self [r, c] = Inl e \<and> OutOfRange e"
    if "r < 0 \<or> int (ny self) \<le> r \<or> c < 0 \<or> int (nu self) \<le> c"
    using that by (auto simp: ZerosAndPoles_getitem_def)
  from a b c show ?thesis by blast
qed

theorem getitem_indexing_witness:
  "rectangular matrix_2x3
   \<and> ZerosAndPoles_getitem matrix_2x3 [0, 0] = Inr (gain_only 1)
   \<and> ZerosAndPoles_getitem matrix_2x3 [0, 1] = Inr (gain_only 2)
   \<and> ZerosAndPoles_getitem matrix_2x3 [0, 2] = Inr (gain_only 3)
   \<and> ZerosAndPoles_getitem matrix_2x3 [1, 0] = Inr (gain_only 4)
   \<and> ZerosAndPoles_getitem matrix_2x3 [1, 1] = Inr (gain_only 5)
   \<and> ZerosAndPoles_getitem matrix_2x3 [1, 2] = Inr (gain_only 6)
   \<and> (\<exists>e. ZerosAndPoles_getitem matrix_2x3 [2, 0] = Inl e \<and> OutOfRange e)
   \<and> (\<exists>e. ZerosAndPoles_getitem matrix_2x3 [0] = Inl e \<and> InvalidArgument e)
   \<and> (\<exists>e. ZerosAndPoles_getitem matrix_2x3 [0, 0, 0] = Inl e \<and> InvalidArgument e)"
proof -
  note t = getitem_indexing [OF rectangular_2x3]
  have s: "ny matrix_2x3 = 2" "nu matrix_2x3 = 3"
    "zpk matrix_2x3 = [[gain_only 1, gain_only 2, gain_only 3], [gain_only 4, gain_only 5, gain_only 6]]"
    by (simp_all add: matrix_2x3_def)
  have v: "ZerosAndPoles_getitem matrix_2x3 [0, 0] = Inr (gain_only 1)"
    "ZerosAndPoles_getitem matrix_2x3 [0, 1] = Inr (gain_only 2)"
    "ZerosAndPoles_getitem matrix_2x3 [0, 2] = Inr (gain_only 3)"
    "ZerosAndPoles_getitem matrix_2x3 [1, 0] = Inr (gain_only 4)"
    "ZerosAndPoles_getitem matrix_2x3 [1, 1] = Inr (gain_only 5)"
    "ZerosAndPoles_getitem matrix_2x3 [1, 2] = Inr (gain_only 6)"
    using t [of 0 0, THEN conjunct1] t [of 0 1, THEN conjunct1] t [of 0 2, THEN conjunct1]
      t [of 1 0, THEN conjunct1] t [of 1 1, THEN conjunct1] t [of 1 2, THEN conjunct1]
    by (simp_all add: s)
  have o: "\<exists>e. ZerosAndPoles_getitem matrix_2x3 [2, 0] = Inl e \<and> OutOfRange e"
    using t [of 2 0, THEN conjunct2, THEN conjunct2] by (simp add: s)
  have i1: "\<exists>e. ZerosAndPoles_getitem matrix_2x3 [0] = Inl e \<and> InvalidArgument e"
    using t [of _ _ "[0]", THEN conjunct2, THEN conjunct1] by simp
  have i3: "\<exists>e. ZerosAndPoles_getitem matrix_2x3 [0, 0, 0] = Inl e \<and> InvalidArgument e"
    using t [of _ _ "[0, 0, 0]", THEN conjunct2, THEN conjunct1] by simp
  from rectangular_2x3 v o i1 i3 show ?thesis by simp
qed

subsection \<open>Evaluation of the matrix\<close>

lemma comprehension_cong:
  "(\<And>x. x \<in> set xs \<Longrightarrow> f x = g x) \<Longrightarrow> comprehension f xs = comprehension g xs"
  by (induction xs) simp_all

lemma comprehension_Inr:
  "(\<And>x. x \<in> set xs \<Longrightarrow> f x = Inr (g x)) \<Longrightarrow> comprehension f xs = Inr (map g xs)"
  by (induction xs) simp_all






subsection \<open>Frequency response of the matrix\<close>

text \<open>
  Without a range the loop over the selected cells yields the componentwise minimum of
  all \<open>f_min\<close> and maximum of all \<open>f_max\<close>, and the call returns the frequencies together
  with the input-major matrix of responses, each cell evaluated on the array of points
  with \<open>den_min = 1e-10\<close>.
\<close>

lemma widen_row_fold:
  assumes "rectangular self" "0 \<le> i" "i < int (ny self)"
    and "list_all (\<lambda>j. 0 \<le> j \<and> j < int (nu self)) js"
  shows "widen_row FR self i js r
     = Inr (fold widen_step
         (map (\<lambda>j. FR (z (zpk self ! nat i ! nat j)) (p (zpk self ! nat i ! nat j)) None) js) r)"
  using assms(4)
proof (induction js arbitrary: r)
  case Nil
  then show ?case by simp
next
  case (Cons j js)
  then have "0 \<le> j" "j < int (nu self)" by simp_all
  from cell_in_range [OF assms(1-3) this] Cons show ?case
    by (simp add: widen_step_def Let_def)
qed

lemma widen_fold:
  assumes "rectangular self"
    and "list_all (\<lambda>i. 0 \<le> i \<and> i < int (ny self)) is"
    and "list_all (\<lambda>j. 0 \<le> j \<and> j < int (nu self)) js"
  shows "widen FR self is js r
     = Inr (fold widen_step
         (map (\<lambda>(i, j). FR (z (zpk self ! nat i ! nat j)) (p (zpk self ! nat i ! nat j)) None)
            (List.product is js)) r)"
  using assms(2)
proof (induction "is" arbitrary: r)
  case Nil
  then show ?case by simp
next
  case (Cons i "is")
  then have "0 \<le> i" "i < int (ny self)" by simp_all
  from widen_row_fold [OF assms(1) this assms(3)] Cons show ?case
    by (simp add: comp_def)
qed

lemma fst_widen_step [simp]: "fst (widen_step q r) = min (fst r) (fst q)"
  and snd_widen_step [simp]: "snd (widen_step q r) = max (snd r) (snd q)"
  by (simp_all add: widen_step_def)

lemma fold_widen_step:
  "fold widen_step qs r
     = (Min (set (fst r # map fst qs)), Max (set (snd r # map snd qs)))"
proof (induction qs arbitrary: r)
  case Nil
  then show ?case by simp
next
  case (Cons q qs)
  have a: "Min (insert (min (fst r) (fst q)) (fst ` set qs))
      = Min (insert (fst r) (insert (fst q) (fst ` set qs)))"
    by (cases "qs = []") (simp_all add: min.assoc)
  have b: "Max (insert (max (snd r) (snd q)) (snd ` set qs))
      = Max (insert (snd r) (insert (snd q) (snd ` set qs)))"
    by (cases "qs = []") (simp_all add: max.assoc)
  have "fold widen_step (q # qs) r = fold widen_step qs (widen_step q r)"
    by simp
  also have "\<dots> = (Min (set (fst (widen_step q r) # map fst qs)),
      Max (set (snd (widen_step q r) # map snd qs)))"
    by (rule Cons)
  finally show ?case
    using a b by simp
qed

lemma py_index_0: "xs \<noteq> [] \<Longrightarrow> py_index xs 0 = Inr (hd xs)"
  by (cases xs) (simp_all add: py_index_def)

lemma frequencyResponse_f_range_omitted:
  fixes self :: ZerosAndPoles
    and u_indices y_indices :: "int list option"
    and frequencyRange :: "complex list \<Rightarrow> complex list \<Rightarrow> (real \<times> real) option \<Rightarrow> real \<times> real"
    and f_logspace :: bool and n :: nat
  defines "ui \<equiv> selection u_indices (nu self)"
    and "yi \<equiv> selection y_indices (ny self)"
  defines "ranges \<equiv> map (\<lambda>(i, j).
      frequencyRange (z (zpk self ! nat i ! nat j)) (p (zpk self ! nat i ! nat j)) None)
      (List.product yi ui)"
  defines "lo \<equiv> Min (set (map fst ranges))" and "hi \<equiv> Max (set (map snd ranges))"
  defines "f \<equiv> (if f_logspace then logspace (log 10 lo) (log 10 hi) (n + 1)
                  else linspace lo hi (n + 1))"
  assumes rect: "rectangular self"
    and u: "list_all (\<lambda>j. 0 \<le> j \<and> j < int (nu self)) ui" "ui \<noteq> []"
    and y: "list_all (\<lambda>i. 0 \<le> i \<and> i < int (ny self)) yi" "yi \<noteq> []"
    and pos: "f_logspace \<Longrightarrow> 0 < lo \<and> 0 < hi"
  shows "ZerosAndPoles_frequencyResponse frequencyRange from_Hz self n None f_logspace
            u_indices y_indices
     = Inr (f, map (\<lambda>j. map (\<lambda>i. YArray (evaluate_array (zpk self ! nat i ! nat j)
                (map (\<lambda>x. Complex 0 x) (from_Hz f)) (1 / 10 ^ 10))) yi) ui)"
proof -
  from y have y0: "0 \<le> hd yi" "hd yi < int (ny self)"
    by (cases yi; simp)+
  from u have u0: "0 \<le> hd ui" "hd ui < int (nu self)"
    by (cases ui; simp)+
  let ?c0 = "zpk self ! nat (hd yi) ! nat (hd ui)"
  let ?r0 = "frequencyRange (z ?c0) (p ?c0) None"
  from rect y0 have l: "hd yi < int (length (zpk self))" by (simp add: rectangular_def)
  from y0 have "nat (hd yi) < ny self" by simp
  from rectangular_row [OF rect this] u0
  have r: "hd ui < int (length (zpk self ! nat (hd yi)))" by simp
  have "(hd yi, hd ui) \<in> set (List.product yi ui)"
    using u(2) y(2) by simp
  then have mem: "?r0 \<in> set ranges"
    unfolding ranges_def by force
  have w: "widen frequencyRange self yi ui ?r0 = Inr (lo, hi)"
  proof -
    have wf: "widen frequencyRange self yi ui ?r0 = Inr (fold widen_step ranges ?r0)"
      unfolding ranges_def by (rule widen_fold [OF rect y(1) u(1)])
    from mem have "fst ?r0 \<in> set (map fst ranges)" and "snd ?r0 \<in> set (map snd ranges)"
      by force+
    then have "set (fst ?r0 # map fst ranges) = set (map fst ranges)"
      and "set (snd ?r0 # map snd ranges) = set (map snd ranges)"
      by (simp_all only: list.set insert_absorb)
    then have "fold widen_step ranges ?r0 = (lo, hi)"
      unfolding fold_widen_step lo_def hi_def by (simp only:)
    with wf show ?thesis by simp
  qed
  have fs: "(if f_logspace
             then bind (math_log10 lo) (\<lambda>a. bind (math_log10 hi) (\<lambda>b. Inr (logspace a b (n + 1))))
             else Inr (linspace lo hi (n + 1))) = Inr f"
    using pos by (auto simp: f_def math_log10_def)
  have ev: "ZerosAndPoles_evaluate_at_s self (SArray ws) dm (Some ui) (Some yi)
      = Inr (map (\<lambda>j. map (\<lambda>i. YArray (evaluate_array (zpk self ! nat i ! nat j) ws dm)) yi) ui)"
    for ws dm
  proof -
    have su: "selection (Some ui) (nu self) = ui" and sy: "selection (Some yi) (ny self) = yi"
      by (simp_all add: selection_def)
    from u(1) y(1) have a: "list_all (\<lambda>j. 0 \<le> j \<and> j < int (nu self)) (selection (Some ui) (nu self))"
      and b: "list_all (\<lambda>i. 0 \<le> i \<and> i < int (ny self)) (selection (Some yi) (ny self))"
      by (simp_all add: su sy)
    have "ZerosAndPoles_evaluate_at_s self (SArray ws) dm (Some ui) (Some yi)
        = comprehension (\<lambda>j. comprehension (\<lambda>i.
            ZerosAndPolesSISO_evaluate_at_s (zpk self ! nat i ! nat j) (SArray ws) dm) yi) ui"
      unfolding ZerosAndPoles_evaluate_at_s_def Let_def su sy
    proof (intro comprehension_cong)
      fix j i assume "j \<in> set ui" "i \<in> set yi"
      with u(1) y(1) have "0 \<le> i" "i < int (ny self)" "0 \<le> j" "j < int (nu self)"
        by (simp_all add: list_all_iff)
      from cell_in_range [OF rect this]
      show "bind (cell self i j) (\<lambda>c. ZerosAndPolesSISO_evaluate_at_s c (SArray ws) dm)
          = ZerosAndPolesSISO_evaluate_at_s (zpk self ! nat i ! nat j) (SArray ws) dm"
        by simp
    qed
    also have "\<dots> = Inr (map (\<lambda>j. map (\<lambda>i.
        YArray (evaluate_array (zpk self ! nat i ! nat j) ws dm)) yi) ui)"
      by (intro comprehension_Inr) (simp add: ZerosAndPolesSISO_evaluate_at_s_def)
    finally show ?thesis .
  qed
  show ?thesis
    unfolding ZerosAndPoles_frequencyResponse_def
    by (simp add: Let_def ui_def [symmetric] yi_def [symmetric] py_index_0 u(2) y(2)
        py_index_in_range [OF y0(1) l] py_index_in_range [OF u0(1) r] w fs read_local_def ev)
qed

text \<open>
  With a range supplied by the caller the branch that assigns \<open>ui\<close> and \<open>yi\<close> is skipped,
  and the call of \<open>evaluate_at_s\<close> reads \<open>ui\<close> unassigned (unless \<open>math.log10\<close> has failed
  before on a non-positive bound).
\<close>

lemma frequencyResponse_f_range_supplied:
  "ZerosAndPoles_frequencyResponse frequencyRange from_Hz self n (Some (f_min, f_max)) f_logspace
       u_indices y_indices
     = (if f_logspace \<and> (f_min \<le> 0 \<or> f_max \<le> 0)
        then Inl (ValueError (Msg ''math domain error''))
        else Inl (UnboundLocalError (Msg ''ui'')))"
  by (simp add: ZerosAndPoles_frequencyResponse_def math_log10_def read_local_def)

text \<open>
  Claim C1 says that \<open>frequencyResponse\<close> of the matrix never fails and that a range
  supplied by the caller is used.  The code raises \<open>UnboundLocalError\<close> for every supplied
  range: here on a matrix of one cell, with \<open>n = 10\<close> and \<open>f_range = (1, 10)\<close>, for
  logarithmic and for linear spacing, whatever \<open>frequencyRange\<close> and \<open>from_Hz\<close> are.
\<close>

theorem frequencyResponse_f_range_unbound_local:
  "ZerosAndPoles_frequencyResponse frequencyRange from_Hz
       \<lparr>zpk = [[gain_only 1]], nu = 1, ny = 1\<rparr> 10 (Some (1, 10)) True None None
     = Inl (UnboundLocalError (Msg ''ui''))
   \<and> ZerosAndPoles_frequencyResponse frequencyRange from_Hz
       \<lparr>zpk = [[gain_only 1]], nu = 1, ny = 1\<rparr> 10 (Some (1, 10)) False None None
     = Inl (UnboundLocalError (Msg ''ui''))"
  by (simp add: frequencyResponse_f_range_supplied)

end
